theory Spec2Isabelle
  imports Complex_Main
begin

section \<open>The Longview CPU gauge: data model\<close>

text \<open>
  The component under verification is \<open>LongviewGauge\<close> with its three utilities
  \<open>sumCPUUsage\<close>, \<open>normalizeValue\<close> and \<open>innerText\<close>.

  A JavaScript number is a double; the model takes its value, a \<^typ>\<open>real\<close>. The
  operations of the source that round, the addition \<open>sum += val\<close> and the product
  \<open>100 * numCores\<close>, round their exact result to the nearest double. Comparison,
  the selection of a bound by \<open>clamp\<close> and \<open>Math.round\<close> are exact on doubles.
  \<open>NaN\<close>, the infinities (so a result beyond the largest double) and the sign of zero
  do not exist in this model.

  A position of the fetched data that may hold \<open>undefined\<close> or \<open>null\<close> instead of
  the value the type declaration promises is wrapped in \<open>js\<close>. A value of yet another
  type there (a string where a number is declared) is outside the model.
\<close>

datatype 'a js = Undefined | Null | Def 'a

text \<open>What the code can throw: the runtime's \<open>TypeError\<close>, and a plain \<open>Error\<close> with a message.\<close>

datatype exn = TypeError | Error string

section \<open>Double arithmetic\<close>

text \<open>Rounding to the nearest integer, a tie going to the even one.\<close>

definition round_even :: "real \<Rightarrow> int" where
  "round_even q =
     (let f = \<lfloor>q\<rfloor> in
      if q - of_int f < 1 / 2 then f
      else if 1 / 2 < q - of_int f then f + 1
      else if even f then f else f + 1)"

text \<open>The binary exponent \<open>e\<close> of a number other than zero: \<open>2^e \<le> |x| < 2^(e + 1)\<close>.\<close>

definition exponent :: "real \<Rightarrow> int" where
  "exponent x = (if x = 0 then 0 else \<lfloor>log 2 \<bar>x\<bar>\<rfloor>)"

text \<open>
  The double nearest to a real number: a significand of 53 bits, so the doubles around
  \<open>x\<close> are the multiples of \<open>2^(e - 52)\<close>, and a tie goes to the even significand.
  The exponent is not bounded here; a sum of two doubles, and the product of 100 and a
  double, that falls below the smallest normal double is exact in the runtime as it is
  here.
\<close>

definition round_double :: "real \<Rightarrow> real" where
  "round_double x =
     (if x = 0 then 0
      else of_int (round_even (x / 2 powi (exponent x - 52))) * 2 powi (exponent x - 52))"

text \<open>
  \<open>a + b\<close> on numbers: the exact sum, rounded to the nearest double. A double plus
  zero is that double, which the first two cases say of every operand.
\<close>

definition js_add :: "real \<Rightarrow> real \<Rightarrow> real" where
  "js_add a b = (if a = 0 then b else if b = 0 then a else round_double (a + b))"

text \<open>\<open>a * b\<close> on numbers: the exact product, rounded.\<close>

definition js_mul :: "real \<Rightarrow> real \<Rightarrow> real" where
  "js_mul a b = round_double (a * b)"

section \<open>The fetched data\<close>

text \<open>
  A sample point of a series. The source reads its field \<open>y\<close> only (the spec calls it
  the point's value field); every other field of the point (the timestamp \<open>x\<close>, any
  metadata) lives in the record's extension slot.
\<close>

record sample_point =
  y :: "real js"

text \<open>
  An object is the list of its own properties, in the order \<open>Object.keys\<close> enumerates
  them; a JavaScript object holds a key once, so a well-formed object has distinct keys.
\<close>

type_synonym 'v object = "(string \<times> 'v js) list"

type_synonym 'p series = "'p js list"

type_synonym 'p CPU = "'p series object"

type_synonym 'p snapshot = "'p CPU object"

definition Object_keys :: "'v object \<Rightarrow> string list" where
  "Object_keys obj = map fst obj"

text \<open>\<open>obj[key]\<close>: the property's value, \<open>undefined\<close> when the object has no such property.\<close>

definition get :: "'v object \<Rightarrow> string \<Rightarrow> 'v js" where
  "get obj key = (case map_of obj key of None \<Rightarrow> Undefined | Some v \<Rightarrow> v)"

text \<open>\<open>arr[i]\<close>: \<open>undefined\<close> past the end of the array.\<close>

definition elem_at :: "'v js list \<Rightarrow> nat \<Rightarrow> 'v js" where
  "elem_at arr i = (if i < length arr then arr ! i else Undefined)"

section \<open>sumCPUUsage\<close>

text \<open>
  Ramda's \<open>path([entry, 0, 'y'], cpu)\<close>: it walks the path and returns \<open>undefined\<close> as
  soon as the value reached is \<open>null\<close> or \<open>undefined\<close>.
\<close>

definition path_entry_0_y :: "string \<Rightarrow> 'a sample_point_scheme CPU \<Rightarrow> real js" where
  "path_entry_0_y entry cpu =
     (case get cpu entry of
        Undefined \<Rightarrow> Undefined
      | Null \<Rightarrow> Undefined
      | Def series \<Rightarrow>
          (case elem_at series 0 of
             Undefined \<Rightarrow> Undefined
           | Null \<Rightarrow> Undefined
           | Def point \<Rightarrow> y point))"

text \<open>
  Ramda's \<open>defaultTo\<close>: the default replaces \<open>null\<close> and \<open>undefined\<close> (and
  \<open>NaN\<close>, which the reals do not have).
\<close>

definition defaultTo :: "'v \<Rightarrow> 'v js \<Rightarrow> 'v" where
  "defaultTo d v = (case v of Undefined \<Rightarrow> d | Null \<Rightarrow> d | Def a \<Rightarrow> a)"

definition pathOr_entry_0_y :: "real \<Rightarrow> string \<Rightarrow> 'a sample_point_scheme CPU \<Rightarrow> real" where
  "pathOr_entry_0_y d entry cpu = defaultTo d (path_entry_0_y entry cpu)"

text \<open>
  The inner loop \<open>Object.keys(cpu).forEach(entry => ...)\<close>; the mutable variable
  \<open>sum\<close> is passed through as \<open>acc\<close>.
\<close>

fun forEach_entry :: "'a sample_point_scheme CPU \<Rightarrow> string list \<Rightarrow> real \<Rightarrow> real" where
  "forEach_entry cpu [] acc = acc"
| "forEach_entry cpu (entry # entries) acc =
     forEach_entry cpu entries (js_add acc (pathOr_entry_0_y 0 entry cpu))"

text \<open>
  The outer loop \<open>Object.keys(CPUData).forEach(key => ...)\<close>. \<open>Object.keys(cpu)\<close>
  throws a \<open>TypeError\<close> when \<open>cpu\<close> is \<open>null\<close> or \<open>undefined\<close>.
\<close>

fun forEach_key ::
  "'a sample_point_scheme snapshot \<Rightarrow> string list \<Rightarrow> real \<Rightarrow> exn + real" where
  "forEach_key CPUData [] acc = Inr acc"
| "forEach_key CPUData (key # keys) acc =
     (case get CPUData key of
        Undefined \<Rightarrow> Inl TypeError
      | Null \<Rightarrow> Inl TypeError
      | Def cpu \<Rightarrow> forEach_key CPUData keys (forEach_entry cpu (Object_keys cpu) acc))"

text \<open>
  A parameter's default replaces \<open>undefined\<close> only: \<open>null\<close> passes through.
\<close>

definition default_param :: "'v \<Rightarrow> 'v js \<Rightarrow> 'v js" where
  "default_param d arg = (case arg of Undefined \<Rightarrow> Def d | Null \<Rightarrow> Null | Def a \<Rightarrow> Def a)"

text \<open>
  \<open>sumCPUUsage = (CPUData = {}) => ...\<close>; \<open>Object.keys(null)\<close> throws a
  \<open>TypeError\<close>.
\<close>

definition sumCPUUsage :: "'a sample_point_scheme snapshot js \<Rightarrow> exn + real" where
  "sumCPUUsage arg =
     (case default_param [] arg of
        Undefined \<Rightarrow> Inl TypeError
      | Null \<Rightarrow> Inl TypeError
      | Def CPUData \<Rightarrow> forEach_key CPUData (Object_keys CPUData) 0)"

section \<open>normalizeValue\<close>

text \<open>
  Ramda's \<open>clamp(min, max, value)\<close>: it throws when \<open>min > max\<close>, and otherwise is
  \<open>value < min ? min : value > max ? max : value\<close>.
\<close>

definition clamp :: "real \<Rightarrow> real \<Rightarrow> real \<Rightarrow> exn + real" where
  "clamp mn mx v =
     (if mn > mx then Inl (Error ''min must not be greater than max in clamp(min, max, value)'')
      else Inr (if v < mn then mn else if v > mx then mx else v))"

text \<open>
  \<open>Math.round\<close>: the closest integer, and of two equally close integers the one
  nearer to plus infinity.
\<close>

definition Math_round :: "real \<Rightarrow> real" where
  "Math_round v = of_int \<lfloor>v + 1 / 2\<rfloor>"

definition normalizeValue :: "real \<Rightarrow> real \<Rightarrow> exn + real" where
  "normalizeValue v numCores' =
     (case clamp 0 (js_mul 100 numCores') v of
        Inl e \<Rightarrow> Inl e
      | Inr clamped \<Rightarrow> Inr (Math_round clamped))"

section \<open>innerText\<close>

record APIError =
  reason :: string

text \<open>
  The template literal converts the number to a string with the runtime's number
  formatting, which is a parameter \<open>toString\<close> of the model.
\<close>

definition innerText ::
  "(real \<Rightarrow> string) \<Rightarrow> real \<Rightarrow> bool \<Rightarrow> 'e APIError_scheme option \<Rightarrow> string" where
  "innerText toString v ld err =
     (case err of
        Some e \<Rightarrow> reason e
      | None \<Rightarrow> if ld then ''Loading...'' else toString v @ ''%'')"

section \<open>The component's state and its effect\<close>

record gauge_state =
  loading :: bool
  error :: "APIError option"
  usedCPU :: "real option"
  numCores :: "real option"

definition initial_state :: gauge_state where
  "initial_state = \<lparr>loading = True, error = None, usedCPU = None, numCores = None\<rparr>"

text \<open>
  What \<open>requestStats\<close> resolves with, as far as the component reads it:
  \<open>path(['SysInfo', 'cpu', 'cores'], data)\<close> and \<open>data.CPU\<close>. The path lookup
  yields \<open>undefined\<close> wherever the path breaks off, and \<open>data.CPU\<close> is read only when
  it yielded a core count.
\<close>

record 'p response =
  cores :: "real js"
  CPU :: "'p snapshot js"

text \<open>\<open>!v\<close> for a number that may be missing: zero, \<open>null\<close> and \<open>undefined\<close> are falsy.\<close>

fun falsy :: "real js \<Rightarrow> bool" where
  "falsy Undefined = True"
| "falsy Null = True"
| "falsy (Def n) = (n = 0)"

fun opt_js :: "real option \<Rightarrow> real js" where
  "opt_js None = Undefined"
| "opt_js (Some n) = Def n"

text \<open>
  The \<open>then\<close> callback. It returns the state after the setters it called and, when it
  threw, the exception (the setters called before the throw keep their effect).
\<close>

definition then_handler ::
  "'a sample_point_scheme response \<Rightarrow> gauge_state \<Rightarrow> gauge_state \<times> exn option" where
  "then_handler data st =
     (let st1 = st\<lparr>loading := False, error := None\<rparr> in
      if falsy (cores data) then (st1, None)
      else
        (case cores data of
           Def c \<Rightarrow>
             (let st2 = st1\<lparr>numCores := Some c\<rparr> in
              case sumCPUUsage (CPU data) of
                Inl e \<Rightarrow> (st2, Some e)
              | Inr used \<Rightarrow>
                  (case normalizeValue used c of
                     Inl e \<Rightarrow> (st2, Some e)
                   | Inr normalizedUsed \<Rightarrow> (st2\<lparr>usedCPU := Some normalizedUsed\<rparr>, None)))
         | _ \<Rightarrow> (st1, None)))"

text \<open>
  The \<open>catch\<close> callback. Its \<open>usedCPU\<close> is the value the closure captured when the
  effect was set up, passed as \<open>captured\<close>.
\<close>

definition catch_handler :: "real option \<Rightarrow> gauge_state \<Rightarrow> gauge_state" where
  "catch_handler captured st =
     (if falsy (opt_js captured)
      then (st\<lparr>error := Some \<lparr>reason = ''Error''\<rparr>\<rparr>)\<lparr>loading := False\<rparr>
      else st)"

text \<open>
  One run of the effect, \<open>requestStats(...).then(...).catch(...)\<close>, from the state of the
  render that started it to the state after the promise chain settled: the request
  either resolves with data or rejects, and \<open>catch\<close> also receives what \<open>then\<close> throws.
\<close>

datatype 'p fetched = Resolved "'p response" | Rejected

definition useEffect :: "'a sample_point_scheme fetched \<Rightarrow> gauge_state \<Rightarrow> gauge_state" where
  "useEffect outcome st =
     (let captured = usedCPU st in
      case outcome of
        Rejected \<Rightarrow> catch_handler captured st
      | Resolved data \<Rightarrow>
          (case then_handler data st of
             (st', None) \<Rightarrow> st'
           | (st', Some e) \<Rightarrow> catch_handler captured st'))"

text \<open>The refresh ticks one after the other, each fetch settled before the next starts.\<close>

fun run :: "'a sample_point_scheme fetched list \<Rightarrow> gauge_state \<Rightarrow> gauge_state" where
  "run [] st = st"
| "run (outcome # outcomes) st = run outcomes (useEffect outcome st)"

text \<open>The props the render passes to the gauge.\<close>

definition gauge_max :: "gauge_state \<Rightarrow> real" where
  "gauge_max st = (case numCores st of None \<Rightarrow> 1 | Some n \<Rightarrow> js_mul 100 n)"

definition gauge_value :: "gauge_state \<Rightarrow> real" where
  "gauge_value st = (case usedCPU st of None \<Rightarrow> 0 | Some u \<Rightarrow> u)"

definition gauge_innerText :: "(real \<Rightarrow> string) \<Rightarrow> gauge_state \<Rightarrow> string" where
  "gauge_innerText toString st =
     innerText toString (if falsy (opt_js (usedCPU st)) then 0 else gauge_value st)
       (loading st) (error st)"

section \<open>The specification's words\<close>

text \<open>
  The value the specification assigns to a series: the value of its first sample point
  (index 0), and 0 for a series that has no sample with a value at index 0.
\<close>

fun spec_first_value :: "'a sample_point_scheme series js \<Rightarrow> real" where
  "spec_first_value (Def (Def point # rest)) = (case y point of Def v \<Rightarrow> v | _ \<Rightarrow> 0)"
| "spec_first_value _ = 0"









text \<open>A value that is neither \<open>undefined\<close> nor \<open>null\<close>.\<close>

fun is_def :: "'v js \<Rightarrow> bool" where
  "is_def (Def v) = True"
| "is_def _ = False"

text \<open>
  A series entry that is malformed or missing: the series is absent, \<open>null\<close> or empty, its
  first sample is absent or \<open>null\<close>, or the first sample's \<open>y\<close> is absent or \<open>null\<close>.
\<close>

fun no_first_value :: "'a sample_point_scheme series js \<Rightarrow> bool" where
  "no_first_value (Def (Def point # rest)) = (\<not> is_def (y point))"
| "no_first_value _ = True"

text \<open>A fetch that brings no core count: it is rejected, or resolves with none or zero.\<close>

fun without_cores :: "'p fetched \<Rightarrow> bool" where
  "without_cores Rejected = True"
| "without_cores (Resolved data) = falsy (cores data)"

section \<open>Facts of double arithmetic\<close>

lemma round_even_of_int: "round_even (of_int n) = n"
  by (simp add: round_even_def)

lemma round_even_nonneg: "0 \<le> q \<Longrightarrow> 0 \<le> round_even q"
  by (auto simp: round_even_def Let_def)

lemma powr_powi:
  "(2::real) powr real_of_int k = 2 powi k"
  "(2::real) powr (real_of_int k + 1) = 2 powi (k + 1)"
  using powr_real_of_int' [of 2 k] powr_real_of_int' [of 2 "k + 1"] by simp_all

lemma exponent_bounds:
  assumes "x \<noteq> 0"
  shows "2 powi exponent x \<le> \<bar>x\<bar>" and "\<bar>x\<bar> < 2 powi (exponent x + 1)"
proof -
  from assms have pos: "0 < \<bar>x\<bar>" by simp
  from assms have "\<lfloor>log 2 \<bar>x\<bar>\<rfloor> = exponent x" by (simp add: exponent_def)
  with pos have "2 powr real_of_int (exponent x) \<le> \<bar>x\<bar>
      \<and> \<bar>x\<bar> < 2 powr (real_of_int (exponent x) + 1)"
    using floor_log_eq_powr_iff [of "\<bar>x\<bar>" 2 "exponent x"] by simp
  then show "2 powi exponent x \<le> \<bar>x\<bar>" and "\<bar>x\<bar> < 2 powi (exponent x + 1)"
    by (simp_all only: powr_powi)
qed

lemma exponent_eqI:
  assumes "2 powi e \<le> \<bar>x\<bar>" and "\<bar>x\<bar> < 2 powi (e + 1)"
  shows "exponent x = e"
proof -
  have "(0::real) < 2 powi e" by simp
  with assms(1) have pos: "0 < \<bar>x\<bar>" by linarith
  from assms have "2 powr real_of_int e \<le> \<bar>x\<bar> \<and> \<bar>x\<bar> < 2 powr (real_of_int e + 1)"
    by (simp only: powr_powi)
  with pos have "\<lfloor>log 2 \<bar>x\<bar>\<rfloor> = e"
    using floor_log_eq_powr_iff [of "\<bar>x\<bar>" 2 e] by simp
  with pos show ?thesis by (auto simp: exponent_def)
qed

text \<open>The exponent by halving and doubling, which is how it is computed.\<close>

lemma exponent_code [code]:
  "exponent x =
     (if x = 0 then 0
      else if 2 \<le> \<bar>x\<bar> then exponent (x / 2) + 1
      else if \<bar>x\<bar> < 1 then exponent (x * 2) - 1
      else 0)"
proof -
  consider "x = 0" | "2 \<le> \<bar>x\<bar>" | "x \<noteq> 0" "\<bar>x\<bar> < 1" | "1 \<le> \<bar>x\<bar>" "\<bar>x\<bar> < 2"
    by fastforce
  then show ?thesis
  proof cases
    case 1
    then show ?thesis by (simp add: exponent_def)
  next
    case 2
    then have nz: "x / 2 \<noteq> 0" by auto
    let ?e = "exponent (x / 2)"
    from exponent_bounds [OF nz]
    have "2 powi ?e \<le> \<bar>x\<bar> / 2" and "\<bar>x\<bar> / 2 < 2 powi (?e + 1)"
      by simp_all
    then have "2 powi (?e + 1) \<le> \<bar>x\<bar>" and "\<bar>x\<bar> < 2 powi (?e + 1 + 1)"
      by (simp_all add: power_int_add)
    then have "exponent x = ?e + 1"
      by (rule exponent_eqI)
    with 2 show ?thesis by auto
  next
    case 3
    then have nz: "x * 2 \<noteq> 0" by auto
    let ?e = "exponent (x * 2)"
    from exponent_bounds [OF nz]
    have "2 powi ?e \<le> \<bar>x\<bar> * 2" and "\<bar>x\<bar> * 2 < 2 powi (?e + 1)"
      by (simp_all add: abs_mult)
    moreover have "(2::real) powi (?e + 1) = 2 * 2 powi ?e"
      and "(2::real) powi (?e - 1) = 2 powi ?e / 2"
      by (simp_all add: power_int_add power_int_diff)
    ultimately have "2 powi (?e - 1) \<le> \<bar>x\<bar>" and "\<bar>x\<bar> < 2 powi (?e - 1 + 1)"
      by simp_all
    then have "exponent x = ?e - 1"
      by (rule exponent_eqI)
    with 3 show ?thesis by auto
  next
    case 4
    then have "exponent x = 0"
      by (intro exponent_eqI) simp_all
    with 4 show ?thesis by auto
  qed
qed

text \<open>How a rounding is computed: find the exponent, then round the scaled number.\<close>

lemma round_double_eqI:
  assumes "2 powi e \<le> \<bar>x\<bar>" and "\<bar>x\<bar> < 2 powi (e + 1)"
  shows "round_double x = of_int (round_even (x / 2 powi (e - 52))) * 2 powi (e - 52)"
proof -
  have "(0::real) < 2 powi e" by simp
  with assms(1) have "0 < \<bar>x\<bar>" by linarith
  then have "x \<noteq> 0" by simp
  moreover from assms have "exponent x = e" by (rule exponent_eqI)
  ultimately show ?thesis by (simp add: round_double_def)
qed

lemma round_double_0: "round_double 0 = 0"
  by (simp add: round_double_def)

lemma round_double_nonneg: "0 \<le> x \<Longrightarrow> 0 \<le> round_double x"
  by (simp add: round_double_def round_even_nonneg)

lemma scaled_int:
  assumes "k \<le> 0"
  shows "of_int n / (2::real) powi k = of_int (n * 2 ^ nat (- k))"
    and "of_int (n * 2 ^ nat (- k)) * (2::real) powi k = of_int n"
proof -
  from assms have "(2::real) powi k = inverse (2 ^ nat (- k))"
    by (cases "k = 0")
      (simp_all add: power_int_def power_inverse inverse_eq_divide power_one_over)
  then show "of_int n / (2::real) powi k = of_int (n * 2 ^ nat (- k))"
    and "of_int (n * 2 ^ nat (- k)) * (2::real) powi k = of_int n"
    by (simp_all add: field_simps)
qed

lemma round_double_small_exponent:
  assumes "n \<noteq> 0" and "exponent (of_int n) \<le> 52"
  shows "round_double (of_int n) = of_int n"
proof -
  let ?k = "exponent (of_int n) - 52"
  from assms(2) have k: "?k \<le> 0" by simp
  from assms(1) have "round_double (of_int n) =
      of_int (round_even (of_int n / 2 powi ?k)) * 2 powi ?k"
    by (simp add: round_double_def)
  also have "\<dots> = of_int (n * 2 ^ nat (- ?k)) * 2 powi ?k"
    by (simp only: scaled_int(1) [OF k] round_even_of_int)
  also have "\<dots> = of_int n"
    by (rule scaled_int(2) [OF k])
  finally show ?thesis .
qed

text \<open>An integer below \<open>2^53\<close> in magnitude is a double.\<close>

lemma round_double_of_int:
  assumes "\<bar>n\<bar> < 2 ^ 53"
  shows "round_double (of_int n) = of_int n"
proof (cases "n = 0")
  case True
  then show ?thesis by (simp add: round_double_def)
next
  case False
  let ?e = "exponent (of_int n)"
  from False have "2 powi ?e \<le> \<bar>real_of_int n\<bar>"
    by (intro exponent_bounds) simp
  also from assms have "\<bar>real_of_int n\<bar> < 2 ^ 53"
    by (metis of_int_abs of_int_less_numeral_power_cancel_iff)
  finally have "(2::real) powi ?e < 2 powi 53" by simp
  then have "?e < 53"
    by (rule power_int_le_imp_less_exp [rotated]) simp_all
  then have "?e \<le> 52" by simp
  with False show ?thesis by (rule round_double_small_exponent)
qed

lemma round_double_numeral:
  "(numeral n :: int) < 2 ^ 53 \<Longrightarrow> round_double (numeral n) = numeral n"
  using round_double_of_int [of "numeral n"] by simp

lemma round_double_1: "round_double 1 = 1"
  using round_double_of_int [of 1] by simp

text \<open>Rounding an integer gives an integer, whatever its size.\<close>

lemma round_double_int_Ints: "round_double (of_int n) \<in> \<int>"
proof (cases "n = 0 \<or> exponent (of_int n) \<le> 52")
  case True
  have "round_double (of_int n) = of_int n"
  proof (cases "n = 0")
    case True
    then show ?thesis by (simp add: round_double_def)
  next
    case False
    with \<open>n = 0 \<or> exponent (of_int n) \<le> 52\<close> show ?thesis
      by (simp add: round_double_small_exponent)
  qed
  then show ?thesis by simp
next
  case False
  then have k: "0 \<le> exponent (of_int n) - 52" and "n \<noteq> 0" by simp_all
  then have "(2::real) powi (exponent (of_int n) - 52) = of_int (2 ^ nat (exponent (of_int n) - 52))"
    by (simp add: power_int_def)
  with \<open>n \<noteq> 0\<close> show ?thesis
    by (simp add: round_double_def del: of_int_power)
qed

text \<open>On doubles, the addition is the exact sum rounded.\<close>

lemma js_add_doubles:
  "round_double a = a \<Longrightarrow> round_double b = b \<Longrightarrow> js_add a b = round_double (a + b)"
  by (simp add: js_add_def)

text \<open>The capacity \<open>100 * numCores\<close> of a whole number of cores.\<close>

lemma js_mul_100_nat:
  shows "js_mul 100 (of_nat c) \<in> \<int>"
    and "0 \<le> js_mul 100 (of_nat c)"
    and "100 * c < 2 ^ 53 \<Longrightarrow> js_mul 100 (of_nat c) = 100 * of_nat c"
proof -
  have eq: "js_mul 100 (of_nat c) = round_double (of_int (100 * int c))"
    by (simp add: js_mul_def)
  show "js_mul 100 (of_nat c) \<in> \<int>"
    unfolding eq by (rule round_double_int_Ints)
  show "0 \<le> js_mul 100 (of_nat c)"
    by (simp add: js_mul_def round_double_nonneg)
  show "js_mul 100 (of_nat c) = 100 * of_nat c" if "100 * c < 2 ^ 53"
  proof -
    from that have "int (100 * c) < 2 ^ 53"
      by (metis of_nat_less_numeral_power_cancel_iff)
    then have "\<bar>100 * int c\<bar> < 2 ^ 53" by simp
    then have "round_double (of_int (100 * int c)) = of_int (100 * int c)"
      by (rule round_double_of_int)
    with eq show ?thesis by simp
  qed
qed

section \<open>Rounding and clamping\<close>

lemma Math_round_Ints: "Math_round v \<in> \<int>"
  by (simp add: Math_round_def)

lemma Math_round_mono: "a \<le> b \<Longrightarrow> Math_round a \<le> Math_round b"
  by (simp add: Math_round_def floor_mono)

lemma Math_round_of_int: "Math_round (of_int k) = of_int k"
  unfolding Math_round_def by (simp add: floor_unique)

lemma Math_round_Ints_id: "r \<in> \<int> \<Longrightarrow> Math_round r = r"
  by (auto simp: Ints_def Math_round_of_int)

lemma Math_round_nearest: "\<bar>Math_round v - v\<bar> \<le> 1 / 2"
  unfolding Math_round_def by linarith

lemma Math_round_half: "Math_round (of_int n + 1 / 2) = of_int n + 1"
  unfolding Math_round_def by simp

text \<open>With a capacity that is not negative, \<open>clamp\<close> does not throw and is the usual clamp.\<close>

lemma normalizeValue_char:
  "0 \<le> js_mul 100 c \<Longrightarrow>
     normalizeValue v c = Inr (Math_round (max 0 (min (js_mul 100 c) v)))"
  by (auto simp: normalizeValue_def clamp_def max_def min_def)

lemma Math_round_clamped_range:
  assumes "0 \<le> b" and "b \<in> \<int>"
  shows "0 \<le> Math_round (max 0 (min b v))"
    and "Math_round (max 0 (min b v)) \<le> b"
proof -
  have "Math_round 0 \<le> Math_round (max 0 (min b v))"
    by (rule Math_round_mono) simp
  then show "0 \<le> Math_round (max 0 (min b v))"
    using Math_round_of_int [of 0] by simp
  from assms(1) have "Math_round (max 0 (min b v)) \<le> Math_round b"
    by (intro Math_round_mono) simp
  with assms(2) show "Math_round (max 0 (min b v)) \<le> b"
    by (simp add: Math_round_Ints_id)
qed

lemma normalizeValue_nat:
  shows "normalizeValue v (of_nat c) = Inr (Math_round (max 0 (min (js_mul 100 (of_nat c)) v)))"
    and "0 \<le> Math_round (max 0 (min (js_mul 100 (of_nat c)) v))"
    and "Math_round (max 0 (min (js_mul 100 (of_nat c)) v)) \<le> js_mul 100 (of_nat c)"
  using js_mul_100_nat(1,2) [of c]
  by (simp_all add: normalizeValue_char Math_round_clamped_range)

text \<open>
  C2, as the specification states it: for every natural core count \<open>c\<close> the result
  never exceeds \<open>100 * c\<close>. With 9007199254740994 cores the product \<open>100 * numCores\<close>
  is not a double: it rounds up to 900719925474099456, which is more than
  \<open>100 * c = 900719925474099400\<close>, and a total above it is clamped to it.
\<close>

theorem normalizeValue_exceeds_capacity:
  "normalizeValue 1000000000000000000 9007199254740994 = Inr 900719925474099456
   \<and> \<not> (900719925474099456 \<le> 100 * (9007199254740994 :: real))"
proof -
  have "js_mul 100 9007199254740994 = 900719925474099456"
    unfolding js_mul_def
    by (subst round_double_eqI [where e = 59]) (simp_all add: round_even_def)
  then show ?thesis
    by (simp add: normalizeValue_def clamp_def Math_round_def)
qed

text \<open>
  C2, amended. For every real total \<open>t\<close> and every natural core count \<open>c\<close>,
  \<open>normalizeValue\<close> returns (it does not throw) an integer between 0 and the capacity
  as the code computes it, the double nearest to \<open>100 * c\<close>; whenever \<open>100 * c\<close> is
  below \<open>2^53\<close> that capacity is \<open>100 * c\<close> itself, so the result does not exceed
  \<open>100 * c\<close>. With zero cores the result is 0; \<open>normalizeValue(-5, 2) = 0\<close> and
  \<open>normalizeValue(1000, 2) = 200\<close>.
\<close>

theorem normalizeValue_range:
  "(\<exists>r. normalizeValue t (of_nat c) = Inr r \<and> r \<in> \<int> \<and> 0 \<le> r
        \<and> r \<le> js_mul 100 (of_nat c)
        \<and> (100 * c < 2 ^ 53 \<longrightarrow> r \<le> 100 * of_nat c))
   \<and> normalizeValue t 0 = Inr 0
   \<and> normalizeValue (- 5) 2 = Inr 0
   \<and> normalizeValue 1000 2 = Inr 200"
proof (intro conjI)
  let ?r = "Math_round (max 0 (min (js_mul 100 (of_nat c)) t))"
  have "normalizeValue t (of_nat c) = Inr ?r" and "0 \<le> ?r" and hi: "?r \<le> js_mul 100 (of_nat c)"
    by (rule normalizeValue_nat)+
  moreover have "?r \<in> \<int>"
    by (rule Math_round_Ints)
  moreover have "100 * c < 2 ^ 53 \<longrightarrow> ?r \<le> 100 * of_nat c"
  proof
    assume "100 * c < 2 ^ 53"
    then have "js_mul 100 (of_nat c) = 100 * of_nat c"
      by (rule js_mul_100_nat(3))
    with hi show "?r \<le> 100 * of_nat c"
      by linarith
  qed
  ultimately show "\<exists>r. normalizeValue t (of_nat c) = Inr r \<and> r \<in> \<int> \<and> 0 \<le> r
        \<and> r \<le> js_mul 100 (of_nat c) \<and> (100 * c < 2 ^ 53 \<longrightarrow> r \<le> 100 * of_nat c)"
    by blast
  show "normalizeValue t 0 = Inr 0"
    by (simp add: normalizeValue_def clamp_def Math_round_def js_mul_def round_double_0)
  show "normalizeValue (- 5) 2 = Inr 0"
    by (simp add: normalizeValue_def clamp_def Math_round_def js_mul_def round_double_numeral)
  show "normalizeValue 1000 2 = Inr 200"
    by (simp add: normalizeValue_def clamp_def Math_round_def js_mul_def round_double_numeral)
qed

theorem normalizeValue_range_witness:
  "100 * (2::nat) < 2 ^ 53 \<and> normalizeValue 1000 (of_nat 2) = Inr 200
   \<and> (200::real) \<le> 100 * of_nat 2"
proof -
  have small: "100 * (2::nat) < 2 ^ 53" by simp
  from normalizeValue_range [of 1000 2]
  have "normalizeValue 1000 (of_nat 2) = Inr 200"
    by simp
  with small show ?thesis by simp
qed

text \<open>
  C8, as the specification states it: the total is clamped into \<open>[0, 100 * c]\<close> and
  then rounded to the nearest integer. With 9007199254740994 cores and the total
  \<open>10^30\<close> the result is 900719925474099456, which is 56 away from the total clamped
  into \<open>[0, 100 * c]\<close>: the code clamps to the rounded product.
\<close>

theorem normalizeValue_clamps_to_rounded_product:
  "normalizeValue (10 ^ 30) 9007199254740994 = Inr 900719925474099456
   \<and> max 0 (min (100 * 9007199254740994) (10 ^ 30 :: real)) = 900719925474099400
   \<and> \<not> \<bar>900719925474099456 - 900719925474099400 :: real\<bar> \<le> 1 / 2"
proof -
  have "js_mul 100 9007199254740994 = 900719925474099456"
    unfolding js_mul_def
    by (subst round_double_eqI [where e = 59]) (simp_all add: round_even_def)
  then show ?thesis
    by (simp add: normalizeValue_def clamp_def Math_round_def)
qed

text \<open>
  C8, amended. \<open>normalizeValue\<close> clamps the total into \<open>[0, b]\<close>, where \<open>b\<close> is the
  capacity as the code computes it, the double nearest to \<open>100 * c\<close> (and \<open>100 * c\<close>
  itself whenever that is below \<open>2^53\<close>), and then rounds to the nearest integer: the
  result is an integer at most one half away from the clamped total, and when the clamped
  total lies exactly halfway between the integers \<open>n\<close> and \<open>n + 1\<close> the result is the
  larger one, \<open>n + 1\<close>. In particular \<open>normalizeValue(50.5, 1) = 51\<close>.
\<close>

theorem normalizeValue_round_half_up:
  "(\<exists>r. normalizeValue v (of_nat c) = Inr r \<and> r \<in> \<int>
        \<and> \<bar>r - max 0 (min (js_mul 100 (of_nat c)) v)\<bar> \<le> 1 / 2
        \<and> (\<forall>n::int. max 0 (min (js_mul 100 (of_nat c)) v) = of_int n + 1 / 2
              \<longrightarrow> r = of_int n + 1))
   \<and> (100 * c < 2 ^ 53 \<longrightarrow> js_mul 100 (of_nat c) = 100 * of_nat c)
   \<and> normalizeValue (101 / 2) 1 = Inr 51"
proof (intro conjI)
  let ?m = "max 0 (min (js_mul 100 (of_nat c)) v)"
  have "normalizeValue v (of_nat c) = Inr (Math_round ?m)"
    by (rule normalizeValue_nat)
  moreover have "Math_round ?m \<in> \<int>"
    by (rule Math_round_Ints)
  moreover have "\<bar>Math_round ?m - ?m\<bar> \<le> 1 / 2"
    by (rule Math_round_nearest)
  moreover have "\<forall>n::int. ?m = of_int n + 1 / 2 \<longrightarrow> Math_round ?m = of_int n + 1"
    using Math_round_half by simp
  ultimately show "\<exists>r. normalizeValue v (of_nat c) = Inr r \<and> r \<in> \<int>
        \<and> \<bar>r - ?m\<bar> \<le> 1 / 2 \<and> (\<forall>n::int. ?m = of_int n + 1 / 2 \<longrightarrow> r = of_int n + 1)"
    by blast
  show "100 * c < 2 ^ 53 \<longrightarrow> js_mul 100 (of_nat c) = 100 * of_nat c"
    using js_mul_100_nat(3) [of c] by blast
  show "normalizeValue (101 / 2) 1 = Inr 51"
    by (simp add: normalizeValue_def clamp_def Math_round_def js_mul_def round_double_numeral)
qed

theorem normalizeValue_round_half_up_witness:
  "100 * (1::nat) < 2 ^ 53
   \<and> js_mul 100 (of_nat 1) = 100 * of_nat 1
   \<and> normalizeValue (101 / 2) (of_nat 1) = Inr (of_int 50 + 1)
   \<and> max 0 (min (js_mul 100 (of_nat 1)) (101 / 2)) = of_int 50 + 1 / 2"
proof -
  have small: "100 * (1::nat) < 2 ^ 53" by simp
  with normalizeValue_round_half_up [of "101 / 2" 1]
  have b: "js_mul 100 (of_nat 1) = 100 * of_nat 1"
    by blast
  then have m: "max 0 (min (js_mul 100 (of_nat 1)) (101 / 2)) = of_int 50 + 1 / 2"
    by simp
  from normalizeValue_round_half_up [of "101 / 2" 1]
  obtain r where r: "normalizeValue (101 / 2) (of_nat 1) = Inr r"
    and tie: "\<forall>n::int. max 0 (min (js_mul 100 (of_nat 1)) (101 / 2)) = of_int n + 1 / 2
                \<longrightarrow> r = of_int n + 1"
    by blast
  from tie m have "r = of_int 50 + 1" by blast
  with r m b small show ?thesis by simp
qed

text \<open>
  C10. \<open>normalizeValue\<close> is idempotent: for every number \<open>v\<close> and every core count
  \<open>c\<close> that is a natural number, normalising the normalised value returns it unchanged.
\<close>

theorem normalizeValue_idempotent:
  "\<exists>r. normalizeValue v (of_nat c) = Inr r \<and> normalizeValue r (of_nat c) = Inr r"
proof -
  let ?b = "js_mul 100 (of_nat c)"
  let ?r = "Math_round (max 0 (min ?b v))"
  have r: "normalizeValue v (of_nat c) = Inr ?r" and lo: "0 \<le> ?r" and hi: "?r \<le> ?b"
    by (rule normalizeValue_nat)+
  have "normalizeValue ?r (of_nat c) = Inr (Math_round (max 0 (min ?b ?r)))"
    by (rule normalizeValue_nat)
  also from lo hi have "max 0 (min ?b ?r) = ?r"
    by (simp add: max_def min_def)
  also have "Math_round ?r = ?r"
    by (rule Math_round_Ints_id) (rule Math_round_Ints)
  finally show ?thesis using r by blast
qed

section \<open>The status text\<close>

text \<open>
  C3. \<open>innerText\<close> follows a strict priority: with an error present it returns the
  error's reason, whatever the value and the loading flag; otherwise, when loading, the
  fixed text \<open>Loading...\<close>; otherwise the value's rendering followed by \<open>%\<close>.
\<close>

theorem innerText_priority:
  "innerText toString v ld (Some e) = reason e
   \<and> innerText toString v True None = ''Loading...''
   \<and> innerText toString v False None = toString v @ ''%''"
  by (simp add: innerText_def)

section \<open>The usage total\<close>


text \<open>What one step of the inner loop adds is the specification's value of the series.\<close>

lemma pathOr_spec_first_value:
  "pathOr_entry_0_y 0 entry cpu = spec_first_value (get cpu entry)"
proof (cases "get cpu entry")
  case (Def series)
  show ?thesis
  proof (cases series)
    case Nil
    with Def show ?thesis
      by (simp add: pathOr_entry_0_y_def path_entry_0_y_def defaultTo_def elem_at_def)
  next
    case (Cons p rest)
    with Def show ?thesis
      by (cases p)
        (simp_all add: pathOr_entry_0_y_def path_entry_0_y_def defaultTo_def elem_at_def
          split: js.splits)
  qed
qed (simp_all add: pathOr_entry_0_y_def path_entry_0_y_def defaultTo_def)













text \<open>
  C5. A snapshot of one processor with one series whose only sample point has the value
  \<open>v\<close> makes \<open>sumCPUUsage\<close> return \<open>v\<close>, whatever the point's other fields. The
  point's value field is the field \<open>y\<close> of the source.
\<close>

theorem sumCPUUsage_single_sample:
  "sumCPUUsage (Def [(key, Def [(entry, Def [Def \<lparr>y = Def v, \<dots> = more\<rparr>])])]) = Inr v"
  by (simp add: sumCPUUsage_def default_param_def Object_keys_def get_def
      pathOr_entry_0_y_def path_entry_0_y_def defaultTo_def elem_at_def js_add_def)

text \<open>
  C7, as the specification states it: \<open>sumCPUUsage\<close> never raises, whatever its input.
  It does raise: \<open>Object.keys\<close> throws a \<open>TypeError\<close> on a processor entry that is
  \<open>null\<close>, and on a map that is \<open>null\<close> (the parameter's default replaces
  \<open>undefined\<close> only).
\<close>

theorem sumCPUUsage_null_processor:
  "sumCPUUsage (Def [(''cpu0'', Null)] :: sample_point snapshot js) = Inl TypeError
   \<and> sumCPUUsage (Null :: sample_point snapshot js) = Inl TypeError"
  by (simp add: sumCPUUsage_def default_param_def Object_keys_def get_def)

lemma no_first_value_spec: "no_first_value s \<Longrightarrow> spec_first_value s = 0"
  by (induction s rule: no_first_value.induct) (auto split: js.splits)

lemma get_is_def:
  "list_all (\<lambda>kv. is_def (snd kv)) obj \<Longrightarrow> k \<in> set (Object_keys obj) \<Longrightarrow> is_def (get obj k)"
  by (induction obj) (auto simp: get_def Object_keys_def)

lemma forEach_key_returns:
  assumes "\<And>k. k \<in> set ks \<Longrightarrow> is_def (get CPUData k)"
  shows "\<exists>r. forEach_key CPUData ks acc = Inr r"
  using assms
proof (induction ks arbitrary: acc)
  case Nil
  then show ?case by simp
next
  case (Cons k ks)
  from Cons.prems [of k] obtain cpu where "get CPUData k = Def cpu"
    by (cases "get CPUData k") simp_all
  with Cons.IH Cons.prems show ?case by simp
qed

text \<open>
  C7, amended. \<open>sumCPUUsage\<close> returns a number, without raising, for an absent
  (\<open>undefined\<close>) map, where the total is 0, and for every map whose processor entries are
  all neither \<open>null\<close> nor \<open>undefined\<close>. There a processor with an empty series mapping
  adds nothing, and a series entry that is malformed or missing (the series absent,
  \<open>null\<close> or empty, its first sample absent or \<open>null\<close>, or the first sample's value
  field absent or \<open>null\<close>) contributes 0.
\<close>

theorem sumCPUUsage_returns:
  "sumCPUUsage Undefined = Inr 0
   \<and> (list_all (\<lambda>kv. is_def (snd kv)) CPUData \<longrightarrow> (\<exists>r. sumCPUUsage (Def CPUData) = Inr r))
   \<and> forEach_entry [] (Object_keys []) acc = acc
   \<and> (no_first_value (get cpu entry) \<longrightarrow> pathOr_entry_0_y 0 entry cpu = 0)"
proof (intro conjI impI)
  show "sumCPUUsage Undefined = Inr 0"
    by (simp add: sumCPUUsage_def default_param_def Object_keys_def)
  show "forEach_entry [] (Object_keys []) acc = acc"
    by (simp add: Object_keys_def)
next
  assume "list_all (\<lambda>kv. is_def (snd kv)) CPUData"
  then have "\<exists>r. forEach_key CPUData (Object_keys CPUData) 0 = Inr r"
    by (intro forEach_key_returns get_is_def)
  then show "\<exists>r. sumCPUUsage (Def CPUData) = Inr r"
    by (simp add: sumCPUUsage_def default_param_def)
next
  assume "no_first_value (get cpu entry)"
  then have "spec_first_value (get cpu entry) = 0"
    by (rule no_first_value_spec)
  then show "pathOr_entry_0_y 0 entry cpu = 0"
    by (simp add: pathOr_spec_first_value)
qed

theorem sumCPUUsage_returns_witness:
  "list_all (\<lambda>kv. is_def (snd kv))
     [(''cpu0'', Def []),
      (''cpu1'', Def [(''user'', Null), (''wait'', Def []), (''idle'', Def [Def \<lparr>y = Undefined\<rparr>]),
                      (''system'', Def [Def \<lparr>y = Def 7\<rparr>])])]
   \<and> (\<exists>r. sumCPUUsage (Def
     [(''cpu0'', Def []),
      (''cpu1'', Def [(''user'', Null), (''wait'', Def []), (''idle'', Def [Def \<lparr>y = Undefined\<rparr>]),
                      (''system'', Def [Def \<lparr>y = Def 7\<rparr>])])]) = Inr r)
   \<and> no_first_value (get [(''user'', Null), (''wait'', Def []), (''idle'', Def [Def \<lparr>y = Undefined\<rparr>]),
                      (''system'', Def [Def \<lparr>y = Def 7\<rparr>])] ''idle'')
   \<and> pathOr_entry_0_y 0 ''idle'' [(''user'', Null), (''wait'', Def []), (''idle'', Def [Def \<lparr>y = Undefined\<rparr>]),
                      (''system'', Def [Def \<lparr>y = Def 7\<rparr>])] = 0"
proof -
  let ?cpu = "[(''user'', Null), (''wait'', Def []), (''idle'', Def [Def \<lparr>y = Undefined\<rparr>]),
               (''system'', Def [Def \<lparr>y = Def 7\<rparr>])]"
  let ?d = "[(''cpu0'', Def []), (''cpu1'', Def ?cpu)]"
  have a: "list_all (\<lambda>kv. is_def (snd kv)) ?d"
    by simp
  have b: "no_first_value (get ?cpu ''idle'')"
    by (simp add: get_def)
  from sumCPUUsage_returns [of ?d 0 ?cpu "''idle''"] a b
  have "(\<exists>r. sumCPUUsage (Def ?d) = Inr r) \<and> pathOr_entry_0_y 0 ''idle'' ?cpu = 0"
    by blast
  with a b show ?thesis
    by blast
qed

section \<open>The component\<close>

text \<open>The \<open>catch\<close> callback touches neither the stored usage nor the stored core count.\<close>

lemma catch_handler_frame:
  "usedCPU (catch_handler captured st) = usedCPU st"
  "numCores (catch_handler captured st) = numCores st"
  by (simp_all add: catch_handler_def)

text \<open>
  A rejected fetch, by the usage the component holds: with none, the generic error is set
  and loading cleared; with a usage that is not zero, the state is left as it is.
\<close>

lemma useEffect_Rejected:
  "usedCPU st = None \<Longrightarrow>
     useEffect Rejected st = st\<lparr>loading := False, error := Some \<lparr>reason = ''Error''\<rparr>\<rparr>"
  "usedCPU st = Some u \<Longrightarrow> u \<noteq> 0 \<Longrightarrow> useEffect Rejected st = st"
  by (simp_all add: useEffect_def catch_handler_def)

text \<open>
  C4. A fetch failure when no usage was ever obtained sets the generic error and clears
  loading; a failure after a usage was obtained, the usage 0 included, is to leave the
  error unset. The component does not do so for the usage 0: after a first fetch that
  resolves with one core and no CPU data the stored usage is 0, and a second fetch that
  rejects sets the error \<open>Error\<close>, because \<open>!usedCPU\<close> holds of 0 as it does of
  \<open>undefined\<close>.
\<close>

theorem catch_handler_zero_usage:
  "run [Resolved \<lparr>cores = Def 1, CPU = Undefined :: sample_point snapshot js\<rparr>] initial_state
     = \<lparr>loading = False, error = None, usedCPU = Some 0, numCores = Some 1\<rparr>
   \<and> run [Resolved \<lparr>cores = Def 1, CPU = Undefined :: sample_point snapshot js\<rparr>, Rejected]
       initial_state
     = \<lparr>loading = False, error = Some \<lparr>reason = ''Error''\<rparr>, usedCPU = Some 0, numCores = Some 1\<rparr>"
  by (simp add: useEffect_def then_handler_def catch_handler_def initial_state_def
      sumCPUUsage_def default_param_def Object_keys_def normalizeValue_def clamp_def Math_round_def
      js_mul_def round_double_numeral)

text \<open>
  C9. When a fetch resolves with data whose core count is absent or zero, the \<open>then\<close>
  callback clears loading and error and returns: the stored usage and core count are
  unchanged, and so are the value and the capacity the gauge shows.
\<close>

theorem then_handler_without_cores:
  "falsy (cores data) \<Longrightarrow>
     then_handler data st = (st\<lparr>loading := False, error := None\<rparr>, None)
   \<and> useEffect (Resolved data) st = st\<lparr>loading := False, error := None\<rparr>
   \<and> usedCPU (useEffect (Resolved data) st) = usedCPU st
   \<and> numCores (useEffect (Resolved data) st) = numCores st
   \<and> gauge_value (useEffect (Resolved data) st) = gauge_value st
   \<and> gauge_max (useEffect (Resolved data) st) = gauge_max st"
  by (simp add: then_handler_def useEffect_def gauge_value_def gauge_max_def)

theorem then_handler_without_cores_witness:
  "falsy (cores \<lparr>cores = Def 0, CPU = Undefined :: sample_point snapshot js\<rparr>)
   \<and> useEffect (Resolved \<lparr>cores = Def 0, CPU = Undefined :: sample_point snapshot js\<rparr>)
        \<lparr>loading = True, error = Some \<lparr>reason = ''Error''\<rparr>, usedCPU = Some 50, numCores = Some 2\<rparr>
      = \<lparr>loading = False, error = None, usedCPU = Some 50, numCores = Some 2\<rparr>"
proof -
  let ?data = "\<lparr>cores = Def 0, CPU = Undefined :: sample_point snapshot js\<rparr>"
  have f: "falsy (cores ?data)" by simp
  from then_handler_without_cores [OF f,
      of "\<lparr>loading = True, error = Some \<lparr>reason = ''Error''\<rparr>, usedCPU = Some 50, numCores = Some 2\<rparr>"]
  show ?thesis using f by simp
qed

subsection \<open>What the stored core count can be\<close>

text \<open>
  The \<open>then\<close> callback stores a core count only past its guard \<open>!cores\<close>, and stores a
  usage only after it stored a core count.
\<close>

lemma then_handler_numCores:
  "numCores st \<noteq> Some 0 \<Longrightarrow> numCores (fst (then_handler data st)) \<noteq> Some 0"
  by (cases "cores data")
    (auto simp: then_handler_def Let_def split: sum.splits)

lemma then_handler_usedCPU:
  "numCores (fst (then_handler data st)) = None \<Longrightarrow>
   usedCPU (fst (then_handler data st)) = usedCPU st"
  by (cases "cores data")
    (auto simp: then_handler_def Let_def split: sum.splits if_splits)

lemma then_handler_numCores_None:
  "numCores (fst (then_handler data st)) = None \<Longrightarrow> numCores st = None"
  by (cases "cores data")
    (auto simp: then_handler_def Let_def split: sum.splits if_splits)

lemma useEffect_fst:
  "numCores (useEffect outcome st) =
     (case outcome of Rejected \<Rightarrow> numCores st | Resolved data \<Rightarrow> numCores (fst (then_handler data st)))"
  "usedCPU (useEffect outcome st) =
     (case outcome of Rejected \<Rightarrow> usedCPU st | Resolved data \<Rightarrow> usedCPU (fst (then_handler data st)))"
  by (auto simp: useEffect_def Let_def catch_handler_frame split: fetched.splits prod.splits option.splits)

lemma useEffect_invariant:
  assumes "numCores st \<noteq> Some 0" and "numCores st = None \<longrightarrow> usedCPU st = None"
  shows "numCores (useEffect outcome st) \<noteq> Some 0"
    and "numCores (useEffect outcome st) = None \<longrightarrow> usedCPU (useEffect outcome st) = None"
proof -
  show "numCores (useEffect outcome st) \<noteq> Some 0"
    using assms(1) by (cases outcome) (simp_all add: useEffect_fst then_handler_numCores)
  show "numCores (useEffect outcome st) = None \<longrightarrow> usedCPU (useEffect outcome st) = None"
  proof (cases outcome)
    case Rejected
    with assms(2) show ?thesis by (simp add: useEffect_fst)
  next
    case (Resolved data)
    show ?thesis
    proof
      assume "numCores (useEffect outcome st) = None"
      with Resolved have n: "numCores (fst (then_handler data st)) = None"
        by (simp add: useEffect_fst)
      then have "usedCPU (fst (then_handler data st)) = usedCPU st" and "numCores st = None"
        by (rule then_handler_usedCPU, rule then_handler_numCores_None)
      with assms(2) Resolved show "usedCPU (useEffect outcome st) = None"
        by (simp add: useEffect_fst)
    qed
  qed
qed

lemma run_invariant:
  assumes "numCores st \<noteq> Some 0" and "numCores st = None \<longrightarrow> usedCPU st = None"
  shows "numCores (run outcomes st) \<noteq> Some 0
       \<and> (numCores (run outcomes st) = None \<longrightarrow> usedCPU (run outcomes st) = None)"
  using assms
proof (induction outcomes arbitrary: st)
  case Nil
  then show ?case by simp
next
  case (Cons outcome outcomes)
  from Cons.prems have "numCores (useEffect outcome st) \<noteq> Some 0"
    and "numCores (useEffect outcome st) = None \<longrightarrow> usedCPU (useEffect outcome st) = None"
    by (rule useEffect_invariant)+
  then show ?case
    using Cons.IH [of "useEffect outcome st"] by simp
qed

text \<open>Fetches that bring no core count leave the stored core count as it was.\<close>

lemma useEffect_without_cores:
  "without_cores outcome \<Longrightarrow> numCores (useEffect outcome st) = numCores st"
  by (cases outcome) (simp_all add: useEffect_fst then_handler_def)

lemma run_without_cores:
  "list_all without_cores outcomes \<Longrightarrow> numCores (run outcomes st) = numCores st"
  by (induction outcomes arbitrary: st) (simp_all add: useEffect_without_cores)

text \<open>
  C6, as the specification states it: whenever the core count is unknown or zero, the
  gauge gets the capacity 1 and the value 0. After a fetch that brought two cores and the
  usage 50, a fetch that resolves with the core count 0 leaves the capacity 200 and the
  value 50 on the gauge: the \<open>then\<close> callback returns before it stores anything.
\<close>

theorem gauge_keeps_reading_without_cores:
  "gauge_max (run [Resolved \<lparr>cores = Def 2, CPU = Def
                     [(''cpu0'', Def [(''user'', Def [Def \<lparr>y = Def 30\<rparr>])]),
                      (''cpu1'', Def [(''user'', Def [Def \<lparr>y = Def 20\<rparr>])])]\<rparr>,
                   Resolved \<lparr>cores = Def 0, CPU = Undefined\<rparr>] initial_state) = 200
   \<and> gauge_value (run [Resolved \<lparr>cores = Def 2, CPU = Def
                     [(''cpu0'', Def [(''user'', Def [Def \<lparr>y = Def 30\<rparr>])]),
                      (''cpu1'', Def [(''user'', Def [Def \<lparr>y = Def 20\<rparr>])])]\<rparr>,
                   Resolved \<lparr>cores = Def 0, CPU = Undefined\<rparr>] initial_state) = 50"
  by (simp add: useEffect_def then_handler_def catch_handler_def initial_state_def
      sumCPUUsage_def default_param_def Object_keys_def get_def
      pathOr_entry_0_y_def path_entry_0_y_def defaultTo_def elem_at_def
      normalizeValue_def clamp_def Math_round_def js_add_def js_mul_def round_double_numeral
      gauge_max_def gauge_value_def)

text \<open>
  C6, amended. Whenever the component holds no core count, the capacity passed to the
  gauge is 1 and the value passed is 0; so it is as long as no fetch has brought a core
  count (each was rejected, or resolved with the core count absent or zero). The
  component never stores the core count zero, so the gauge never gets the capacity of
  zero cores.
\<close>

theorem gauge_default_capacity:
  "(numCores (run outcomes initial_state) = None
      \<longrightarrow> gauge_max (run outcomes initial_state) = 1
        \<and> gauge_value (run outcomes initial_state) = 0)
   \<and> (list_all without_cores outcomes \<longrightarrow> numCores (run outcomes initial_state) = None)
   \<and> numCores (run outcomes initial_state) \<noteq> Some 0"
proof -
  have inv: "numCores (run outcomes initial_state) \<noteq> Some 0
       \<and> (numCores (run outcomes initial_state) = None
          \<longrightarrow> usedCPU (run outcomes initial_state) = None)"
    by (rule run_invariant) (simp_all add: initial_state_def)
  have "gauge_max (run outcomes initial_state) = 1 \<and> gauge_value (run outcomes initial_state) = 0"
    if "numCores (run outcomes initial_state) = None"
    using that inv by (simp add: gauge_max_def gauge_value_def)
  moreover have "numCores (run outcomes initial_state) = None"
    if "list_all without_cores outcomes"
    using run_without_cores [OF that, of initial_state] by (simp add: initial_state_def)
  ultimately show ?thesis
    using inv by blast
qed

theorem gauge_default_capacity_witness:
  "list_all without_cores
     [Resolved \<lparr>cores = Def 0, CPU = Undefined :: sample_point snapshot js\<rparr>, Rejected]
   \<and> numCores (run [Resolved \<lparr>cores = Def 0, CPU = Undefined :: sample_point snapshot js\<rparr>, Rejected]
      initial_state) = None
   \<and> gauge_max (run [Resolved \<lparr>cores = Def 0, CPU = Undefined :: sample_point snapshot js\<rparr>, Rejected]
      initial_state) = 1
   \<and> gauge_value (run [Resolved \<lparr>cores = Def 0, CPU = Undefined :: sample_point snapshot js\<rparr>, Rejected]
      initial_state) = 0"
proof -
  let ?os = "[Resolved \<lparr>cores = Def 0, CPU = Undefined :: sample_point snapshot js\<rparr>, Rejected]"
  have w: "list_all without_cores ?os"
    by simp
  note g = gauge_default_capacity [of ?os]
  from g have "list_all without_cores ?os \<longrightarrow> numCores (run ?os initial_state) = None"
    by (rule conjunct1 [OF conjunct2])
  from this w have n: "numCores (run ?os initial_state) = None"
    by (rule mp)
  from g have "numCores (run ?os initial_state) = None
      \<longrightarrow> gauge_max (run ?os initial_state) = 1 \<and> gauge_value (run ?os initial_state) = 0"
    by (rule conjunct1)
  from this n have "gauge_max (run ?os initial_state) = 1 \<and> gauge_value (run ?os initial_state) = 0"
    by (rule mp)
  with w n show ?thesis
    by (intro conjI) (assumption | erule conjunct1 | erule conjunct2)+
qed

end
